theory Spec2Isabelle
  imports Main "HOL-Library.Multiset"
begin

section \<open>Data model: the three collections\<close>

text \<open>
  The server keeps three MongoDB collections (mongoose models \<open>Election\<close>, \<open>Candidate\<close>
  and \<open>Vote\<close>). An \<open>ObjectId\<close> is modelled as a natural number and a \<open>Date\<close> as its
  number of milliseconds since the epoch, which is what JavaScript compares when two
  dates are compared with \<open><\<close>, \<open>>\<close>, \<open><=\<close> and \<open>>=\<close>. A collection is the list of its
  documents in insertion order. The fields \<open>createdAt\<close>/\<open>updatedAt\<close> that
  \<open>timestamps: true\<close> adds, and the \<open>_id\<close> of a vote, are read by none of the handlers
  below and are left out.
\<close>

type_synonym oid = nat
type_synonym date = int

record election =
  e_id :: oid
  title :: string
  e_description :: string
  startDate :: date
  endDate :: date
  isActive :: bool
  createdBy :: oid

record candidate =
  c_id :: oid
  name :: string
  party :: string
  c_description :: string
  photo :: string
  c_election :: oid
  voteCount :: int

record vote =
  voter :: oid
  v_candidate :: oid
  v_election :: oid
  timestamp :: date

record store =
  elections :: "election list"
  candidates :: "candidate list"
  votes :: "vote list"

section \<open>Election lifecycle\<close>

text \<open>
  \<open>getElectionStatus\<close> of the administrator's dashboard
  (\<open>pages/admin/AdminDashboard.tsx\<close>): the four-way classification of an election at
  the instant \<open>now\<close>. Its \<open>status\<close> strings are \<open>inactive\<close>, \<open>upcoming\<close>, \<open>active\<close> and
  \<open>ended\<close>; the specification calls them Inactive, Upcoming, Open and Closed.
\<close>

datatype election_status = Inactive | Upcoming | Active | Ended

definition getElectionStatus :: "election \<Rightarrow> date \<Rightarrow> election_status" where
  "getElectionStatus election now =
     (let start = startDate election; end = endDate election in
      if \<not> isActive election then Inactive
      else if now < start then Upcoming
      else if now \<ge> start \<and> now \<le> end then Active
      else Ended)"

text \<open>\<open>isElectionActive\<close> of the voting page (with election data loaded).\<close>

definition isElectionActive :: "election \<Rightarrow> date \<Rightarrow> bool" where
  "isElectionActive election now =
     (let start = startDate election; end = endDate election in
      isActive election \<and> now \<ge> start \<and> now \<le> end)"

text \<open>
  The validator of \<open>endDate\<close> in the Election schema: \<open>value > this.startDate\<close>. Every
  election document that was saved satisfies it.
\<close>

definition endDate_validator :: "election \<Rightarrow> bool" where
  "endDate_validator election = (endDate election > startDate election)"

section \<open>Store operations\<close>

text \<open>
  The mongoose calls the handlers make, as functions of the store. \<open>findById\<close> and
  \<open>findOne\<close> return the first matching document or nothing (\<open>null\<close>);
  \<open>countDocuments\<close> counts the documents matching a filter.
\<close>

definition Election_findById :: "store \<Rightarrow> oid \<Rightarrow> election option" where
  "Election_findById st i = find (\<lambda>e. e_id e = i) (elections st)"

definition Candidate_findById :: "store \<Rightarrow> oid \<Rightarrow> candidate option" where
  "Candidate_findById st i = find (\<lambda>c. c_id c = i) (candidates st)"

definition Candidate_findOne :: "store \<Rightarrow> oid \<Rightarrow> oid \<Rightarrow> candidate option" where
  "Candidate_findOne st i e = find (\<lambda>c. c_id c = i \<and> c_election c = e) (candidates st)"

definition Candidate_find :: "store \<Rightarrow> oid \<Rightarrow> candidate list" where
  "Candidate_find st e = filter (\<lambda>c. c_election c = e) (candidates st)"

definition Vote_findOne :: "store \<Rightarrow> oid \<Rightarrow> oid \<Rightarrow> vote option" where
  "Vote_findOne st u e = find (\<lambda>v. voter v = u \<and> v_election v = e) (votes st)"

definition Vote_countDocuments :: "(vote \<Rightarrow> bool) \<Rightarrow> store \<Rightarrow> nat" where
  "Vote_countDocuments matches st = length (filter matches (votes st))"

text \<open>
  \<open>vote.save()\<close> inserts the document. The Vote schema declares the compound index
  \<open>{voter: 1, election: 1}\<close> unique, so the insertion of a second vote with the same
  voter and election is refused by the store with the duplicate-key error (code 11000)
  and the collection is left as it was.
\<close>

datatype mongo_error = DuplicateKey | ValidationError

definition Vote_save :: "store \<Rightarrow> vote \<Rightarrow> mongo_error + store" where
  "Vote_save st v =
     (if list_ex (\<lambda>w. voter w = voter v \<and> v_election w = v_election v) (votes st)
      then Inl DuplicateKey
      else Inr (st\<lparr>votes := votes st @ [v]\<rparr>))"

text \<open>
  \<open>Candidate.findByIdAndUpdate(id, { $inc: { voteCount: 1 } })\<close>: the document with
  that \<open>_id\<close>, if there is one, gets its counter incremented; otherwise nothing changes.
\<close>

fun inc_voteCount :: "oid \<Rightarrow> candidate list \<Rightarrow> candidate list" where
  "inc_voteCount i [] = []"
| "inc_voteCount i (c # cs) =
     (if c_id c = i then c\<lparr>voteCount := voteCount c + 1\<rparr> # cs
      else c # inc_voteCount i cs)"

definition Candidate_findByIdAndUpdate_inc :: "store \<Rightarrow> oid \<Rightarrow> store" where
  "Candidate_findByIdAndUpdate_inc st i = st\<lparr>candidates := inc_voteCount i (candidates st)\<rparr>"

section \<open>Requests and responses\<close>

text \<open>
  A response is its HTTP status and its JSON body. The body is a message, the array of
  validation errors, the receipt of a vote (candidate name, election title, timestamp),
  an election document, or the results of an election.
\<close>

record results =
  r_election :: election
  r_candidates :: "candidate list"
  totalVotes :: nat
  userVote :: "(oid \<times> string) option"
  hasVoted :: bool

datatype payload =
    Message string
  | Errors
  | VoteCast string string date
  | ElectionDoc election
  | ResultsDoc results

datatype response = Response (status: nat) (body: payload)

text \<open>
  The handlers put an express-validator chain on fields of the request body and answer
  400 with the array of errors when a chain rejects its field. A validated field is
  modelled by the verdict of its chain: \<open>Valid v\<close> when the chain accepts it, \<open>v\<close> being
  the value the field then holds (an ObjectId for \<open>isMongoId\<close>, an instant for
  \<open>isISO8601\<close>, the trimmed text for the text fields), or \<open>Invalid\<close> when the chain
  rejects it.
\<close>

datatype 'a param = Valid 'a | Invalid

text \<open>
  The request of \<open>POST /api/elections/:id/vote\<close>, after the authentication middleware:
  the authenticated user's id (\<open>req.user._id\<close>), the election id of the route
  (\<open>req.params.id\<close>) and the \<open>candidateId\<close> of the body, checked by \<open>isMongoId\<close>.
\<close>

record vote_req =
  user :: oid
  electionId :: oid
  candidateId :: "oid param"

section \<open>Casting a vote\<close>

text \<open>
  The document of \<open>new Vote({ voter, candidate, election })\<close>; its \<open>timestamp\<close> defaults
  to the clock.
\<close>

definition newVote :: "vote_req \<Rightarrow> oid \<Rightarrow> date \<Rightarrow> vote" where
  "newVote req cid now =
     \<lparr>voter = user req, v_candidate = cid, v_election = electionId req, timestamp = now\<rparr>"

text \<open>
  The handler of \<open>POST /api/elections/:id/vote\<close>, run from start to end with no other
  request in between. It awaits five store calls, in this order: \<open>Election.findById\<close>
  (1), \<open>Candidate.findOne\<close> (2), \<open>Vote.findOne\<close> (3), \<open>vote.save\<close> (4) and
  \<open>Candidate.findByIdAndUpdate\<close> (5). Each may reject; the \<open>catch\<close> block answers a
  duplicate-key error with status 400 and every other error with status 500. The
  argument \<open>failing\<close> says which of the five calls, if any, rejects with an error that
  is not a duplicate key (the store being unreachable, say). \<open>now\<close> is the clock the
  handler reads with \<open>new Date()\<close>, and the default of the timestamp of the new vote.
  The body of the 201 response is the message and the receipt \<open>VoteCast\<close>: the name of
  the candidate, the title of the election and the timestamp of the vote.
\<close>

definition castVote :: "nat option \<Rightarrow> date \<Rightarrow> vote_req \<Rightarrow> store \<Rightarrow> store \<times> response" where
  "castVote failing now req st =
     (case candidateId req of
        Invalid \<Rightarrow> (st, Response 400 Errors)
      | Valid cid \<Rightarrow>
     if failing = Some 1 then (st, Response 500 (Message ''Server error'')) else
     case Election_findById st (electionId req) of
        None \<Rightarrow> (st, Response 404 (Message ''Election not found''))
      | Some election \<Rightarrow>
     if \<not> isActive election then (st, Response 400 (Message ''Election is not active''))
     else if now < startDate election
       then (st, Response 400 (Message ''Election has not started yet''))
     else if now > endDate election
       then (st, Response 400 (Message ''Election has ended''))
     else if failing = Some 2 then (st, Response 500 (Message ''Server error'')) else
     case Candidate_findOne st cid (electionId req) of
        None \<Rightarrow> (st, Response 404 (Message ''Candidate not found in this election''))
      | Some candidate \<Rightarrow>
     if failing = Some 3 then (st, Response 500 (Message ''Server error'')) else
     case Vote_findOne st (user req) (electionId req) of
        Some existingVote \<Rightarrow>
          (st, Response 400 (Message ''You have already voted in this election''))
      | None \<Rightarrow>
     let vote = newVote req cid now in
     if failing = Some 4 then (st, Response 500 (Message ''Server error'')) else
     case Vote_save st vote of
        Inl err \<Rightarrow>
          (if err = DuplicateKey
           then (st, Response 400 (Message ''You have already voted in this election''))
           else (st, Response 500 (Message ''Server error'')))
      | Inr st' \<Rightarrow>
     if failing = Some 5 then (st', Response 500 (Message ''Server error'')) else
     (Candidate_findByIdAndUpdate_inc st' cid,
      Response 201 (VoteCast (name candidate) (title election) (timestamp vote))))"

section \<open>Concurrent requests\<close>

text \<open>
  Several vote requests can be in flight at once: the handler is an \<open>async\<close> function,
  and between two of its awaited store calls other requests run. Each store call is one
  atomic step. A request in flight is at one of its five awaited calls, holding the
  local variables it has bound so far (\<open>candidateId\<close>, \<open>election\<close>, \<open>candidate\<close>,
  \<open>vote\<close>), or it has answered.
\<close>

datatype vote_task =
    AwaitElection
  | AwaitCandidate oid election
  | AwaitExistingVote oid election candidate
  | AwaitSave oid election candidate vote
  | AwaitIncrement oid election candidate vote
  | Finished response

text \<open>
  One step of a request: the awaited call completes (or rejects, when \<open>rejects\<close> holds)
  and the handler runs on to its next awaited call or to its answer. The validation of
  the body comes before the first call. \<open>now\<close> is the clock at this step.
\<close>

fun vote_step :: "bool \<Rightarrow> date \<Rightarrow> vote_req \<Rightarrow> store \<Rightarrow> vote_task \<Rightarrow> store \<times> vote_task" where
  "vote_step rejects now req st AwaitElection =
     (case candidateId req of
        Invalid \<Rightarrow> (st, Finished (Response 400 Errors))
      | Valid cid \<Rightarrow>
     if rejects then (st, Finished (Response 500 (Message ''Server error''))) else
     case Election_findById st (electionId req) of
        None \<Rightarrow> (st, Finished (Response 404 (Message ''Election not found'')))
      | Some election \<Rightarrow>
     if \<not> isActive election
       then (st, Finished (Response 400 (Message ''Election is not active'')))
     else if now < startDate election
       then (st, Finished (Response 400 (Message ''Election has not started yet'')))
     else if now > endDate election
       then (st, Finished (Response 400 (Message ''Election has ended'')))
     else (st, AwaitCandidate cid election))"
| "vote_step rejects now req st (AwaitCandidate cid election) =
     (if rejects then (st, Finished (Response 500 (Message ''Server error''))) else
      case Candidate_findOne st cid (electionId req) of
        None \<Rightarrow>
          (st, Finished (Response 404 (Message ''Candidate not found in this election'')))
      | Some candidate \<Rightarrow> (st, AwaitExistingVote cid election candidate))"
| "vote_step rejects now req st (AwaitExistingVote cid election candidate) =
     (if rejects then (st, Finished (Response 500 (Message ''Server error''))) else
      case Vote_findOne st (user req) (electionId req) of
        Some existingVote \<Rightarrow>
          (st, Finished (Response 400 (Message ''You have already voted in this election'')))
      | None \<Rightarrow>
          (st, AwaitSave cid election candidate (newVote req cid now)))"
| "vote_step rejects now req st (AwaitSave cid election candidate vote) =
     (if rejects then (st, Finished (Response 500 (Message ''Server error''))) else
      case Vote_save st vote of
        Inl err \<Rightarrow>
          (if err = DuplicateKey
           then (st, Finished (Response 400 (Message ''You have already voted in this election'')))
           else (st, Finished (Response 500 (Message ''Server error''))))
      | Inr st' \<Rightarrow> (st', AwaitIncrement cid election candidate vote))"
| "vote_step rejects now req st (AwaitIncrement cid election candidate vote) =
     (if rejects then (st, Finished (Response 500 (Message ''Server error''))) else
      (Candidate_findByIdAndUpdate_inc st cid,
       Finished (Response 201 (VoteCast (name candidate) (title election) (timestamp vote)))))"
| "vote_step rejects now req st (Finished r) = (st, Finished r)"

text \<open>
  The server: the store and the vote requests in flight. A request arrives, or the
  request at some position takes its next step.
\<close>

record server =
  db :: store
  tasks :: "(vote_req \<times> vote_task) list"

datatype event = Arrive vote_req | Advance nat bool date

fun fire :: "server \<Rightarrow> event \<Rightarrow> server" where
  "fire s (Arrive req) = s\<lparr>tasks := tasks s @ [(req, AwaitElection)]\<rparr>"
| "fire s (Advance i rejects now) =
     (if i < length (tasks s)
      then (let (req, task) = tasks s ! i;
                (st', task') = vote_step rejects now req (db s) task
            in s\<lparr>db := st', tasks := (tasks s)[i := (req, task')]\<rparr>)
      else s)"

definition run :: "server \<Rightarrow> event list \<Rightarrow> server" where
  "run s evs = foldl fire s evs"

text \<open>The Vote records of one voter in one election.\<close>

definition votes_of :: "store \<Rightarrow> oid \<Rightarrow> oid \<Rightarrow> vote list" where
  "votes_of st u e = filter (\<lambda>v. voter v = u \<and> v_election v = e) (votes st)"

text \<open>
  What the steps of vote requests leave of a store \<open>st\<close> in which voter \<open>u\<close> has voted
  in election \<open>e\<close>: the elections, the ids and elections of the candidates, and a Vote
  record of \<open>u\<close> in \<open>e\<close>.
\<close>

definition kept :: "store \<Rightarrow> oid \<Rightarrow> oid \<Rightarrow> store \<Rightarrow> bool" where
  "kept st u e st' =
     (elections st' = elections st \<and>
      map (\<lambda>c. (c_id c, c_election c)) (candidates st') =
        map (\<lambda>c. (c_id c, c_election c)) (candidates st) \<and>
      votes_of st' u e \<noteq> [])"

text \<open>
  Administration alongside the vote requests. The administrative handlers write the
  Election and Candidate collections only: of the Vote model they call
  \<open>countDocuments\<close> and nothing else, and no handler updates or deletes a Vote record.
  \<open>Administration es cs\<close> stands for any administrative request, whichever handler
  serves it and however its store calls fall between those of the vote requests, by the
  Election and Candidate collections it leaves.
\<close>

datatype step = VoteEvent event | Administration "election list" "candidate list"

fun fire_any :: "server \<Rightarrow> step \<Rightarrow> server" where
  "fire_any s (VoteEvent ev) = fire s ev"
| "fire_any s (Administration es cs) = s\<lparr>db := (db s)\<lparr>elections := es, candidates := cs\<rparr>\<rparr>"

definition run_any :: "server \<Rightarrow> step list \<Rightarrow> server" where
  "run_any s steps = foldl fire_any s steps"

section \<open>Results of an election\<close>

text \<open>
  The handler of \<open>GET /api/elections/:id/results\<close>. The candidates of the election
  are read with \<open>.sort({ voteCount: -1 })\<close>; the sort is done by the store, outside
  this repository, and is the parameter \<open>sortByVoteCount\<close>. \<open>populate('candidate',
  'name')\<close> replaces the candidate reference of the user's vote by the \<open>_id\<close> and
  \<open>name\<close> of that candidate, or by \<open>null\<close> when there is no such candidate.
\<close>

definition populate_candidate :: "store \<Rightarrow> vote \<Rightarrow> (oid \<times> string) option" where
  "populate_candidate st v =
     map_option (\<lambda>c. (c_id c, name c)) (Candidate_findById st (v_candidate v))"

definition getResults ::
  "(candidate list \<Rightarrow> candidate list) \<Rightarrow> store \<Rightarrow> oid \<Rightarrow> oid \<Rightarrow> response" where
  "getResults sortByVoteCount st uid eid =
     (case Election_findById st eid of
        None \<Rightarrow> Response 404 (Message ''Election not found'')
      | Some election \<Rightarrow>
          (let candidates = sortByVoteCount (Candidate_find st eid);
               totalVotes = Vote_countDocuments (\<lambda>v. v_election v = eid) st;
               userVote = Vote_findOne st uid eid
           in Response 200 (ResultsDoc
                \<lparr>r_election = election,
                 r_candidates = candidates,
                 totalVotes = totalVotes,
                 userVote = (case userVote of
                               Some v \<Rightarrow> populate_candidate st v
                             | None \<Rightarrow> None),
                 hasVoted = (userVote \<noteq> None)\<rparr>)))"

definition results_of :: "response \<Rightarrow> results option" where
  "results_of r = (case body r of ResultsDoc d \<Rightarrow> Some d | _ \<Rightarrow> None)"

text \<open>
  What the query asks of the store's sort: the documents it was given, each once, by
  \<open>voteCount\<close> descending. The query names no second key.
\<close>

definition sorts_by_voteCount_desc :: "(candidate list \<Rightarrow> candidate list) \<Rightarrow> bool" where
  "sorts_by_voteCount_desc srt =
     (\<forall>cs. mset (srt cs) = mset cs \<and> sorted_wrt (\<lambda>a b. voteCount a \<ge> voteCount b) (srt cs))"

text \<open>A sort that does what the query asks, for the examples.\<close>

definition stable_desc :: "candidate list \<Rightarrow> candidate list" where
  "stable_desc cs = sort_key (\<lambda>c. - voteCount c) cs"

section \<open>The results page\<close>

text \<open>
  \<open>pages/Results.tsx\<close>. The page holds the results it loaded, or \<open>null\<close>; it loads
  them through \<open>electionService.getElectionResults\<close>, which hands over the JSON of
  the results handler.
  \<open>isElectionEnded\<close> compares the clock with the end date of the election; \<open>winner\<close>
  is the first candidate of the results; the winner banner is rendered when there is a
  winner, the election has ended and at least one vote was counted. \<open>winnerBanner\<close> is
  the candidate the banner names, if the banner is rendered.
\<close>

definition isElectionEnded :: "results option \<Rightarrow> date \<Rightarrow> bool" where
  "isElectionEnded results now =
     (case results of None \<Rightarrow> False | Some r \<Rightarrow> now > endDate (r_election r))"

definition winner :: "results \<Rightarrow> candidate option" where
  "winner r = (if length (r_candidates r) > 0 then Some (r_candidates r ! 0) else None)"

definition winnerBanner :: "results option \<Rightarrow> date \<Rightarrow> candidate option" where
  "winnerBanner results now =
     (case results of
        None \<Rightarrow> None
      | Some r \<Rightarrow>
          if winner r \<noteq> None \<and> isElectionEnded results now \<and> totalVotes r > 0
          then winner r else None)"

section \<open>Administration\<close>

text \<open>
  The body of \<open>PUT /api/admin/elections/:id\<close>: each key is absent (\<open>None\<close>) or
  present. \<open>title\<close>, \<open>description\<close>, \<open>startDate\<close> and \<open>endDate\<close> have a validator chain
  (all \<open>optional()\<close>: an absent key is not checked); \<open>isActive\<close> has none. Other
  keys a body may carry are not modelled. The store calls of the administrative
  handlers are taken to answer.
\<close>

record election_body =
  b_title :: "string param option"
  b_description :: "string param option"
  b_startDate :: "date param option"
  b_endDate :: "date param option"
  b_isActive :: "bool option"

definition rejected :: "'a param option \<Rightarrow> bool" where
  "rejected f = (f = Some Invalid)"

definition validationErrors :: "election_body \<Rightarrow> bool" where
  "validationErrors b =
     (rejected (b_title b) \<or> rejected (b_description b) \<or>
      rejected (b_startDate b) \<or> rejected (b_endDate b))"

text \<open>
  \<open>election[key] = req.body[key]\<close> for every key of the body: a present field replaces
  the stored one.
\<close>

fun assign :: "'a param option \<Rightarrow> 'a \<Rightarrow> 'a" where
  "assign (Some (Valid v)) old = v"
| "assign _ old = old"

definition assignBody :: "election_body \<Rightarrow> election \<Rightarrow> election" where
  "assignBody b election =
     election\<lparr>title := assign (b_title b) (title election),
              e_description := assign (b_description b) (e_description election),
              startDate := assign (b_startDate b) (startDate election),
              endDate := assign (b_endDate b) (endDate election),
              isActive := (case b_isActive b of Some a \<Rightarrow> a | None \<Rightarrow> isActive election)\<rparr>"

text \<open>
  \<open>election.save()\<close> of a document that is already stored: the schema's validators
  run first (the custom one is that of \<open>endDate\<close>), and a document that fails is not
  written; otherwise the stored document with that \<open>_id\<close> is replaced.
\<close>

fun replace_election :: "election \<Rightarrow> election list \<Rightarrow> election list" where
  "replace_election e [] = []"
| "replace_election e (d # ds) =
     (if e_id d = e_id e then e # ds else d # replace_election e ds)"

definition Election_save :: "store \<Rightarrow> election \<Rightarrow> mongo_error + store" where
  "Election_save st e =
     (if endDate_validator e then Inr (st\<lparr>elections := replace_election e (elections st)\<rparr>)
      else Inl ValidationError)"

text \<open>
  The handler of \<open>PUT /api/admin/elections/:id\<close>. A failed \<open>save\<close> lands in the
  \<open>catch\<close> block and is answered 500. The 200 response is the saved document.
\<close>

definition updateElection :: "store \<Rightarrow> oid \<Rightarrow> election_body \<Rightarrow> store \<times> response" where
  "updateElection st eid b =
     (if validationErrors b then (st, Response 400 Errors) else
      case Election_findById st eid of
        None \<Rightarrow> (st, Response 404 (Message ''Election not found''))
      | Some election \<Rightarrow>
     let voteCount = Vote_countDocuments (\<lambda>v. v_election v = eid) st in
     if voteCount > 0 \<and> (b_startDate b \<noteq> None \<or> b_endDate b \<noteq> None)
       then (st, Response 400 (Message ''Cannot modify dates after voting has started''))
     else
     case Election_save st (assignBody b election) of
        Inl err \<Rightarrow> (st, Response 500 (Message ''Server error''))
      | Inr st' \<Rightarrow> (st', Response 200 (ElectionDoc (assignBody b election))))"

text \<open>
  \<open>findByIdAndDelete\<close> removes the first document with the given \<open>_id\<close>;
  \<open>deleteMany\<close> removes every document that matches.
\<close>

fun delete_first :: "('a \<Rightarrow> bool) \<Rightarrow> 'a list \<Rightarrow> 'a list" where
  "delete_first matches [] = []"
| "delete_first matches (d # ds) = (if matches d then ds else d # delete_first matches ds)"


text \<open>The handler of \<open>DELETE /api/admin/candidates/:id\<close>.\<close>

definition deleteCandidate :: "store \<Rightarrow> oid \<Rightarrow> store \<times> response" where
  "deleteCandidate st cid =
     (case Candidate_findById st cid of
        None \<Rightarrow> (st, Response 404 (Message ''Candidate not found''))
      | Some candidate \<Rightarrow>
     let voteCount = Vote_countDocuments (\<lambda>v. v_candidate v = cid) st in
     if voteCount > 0
       then (st, Response 400 (Message ''Cannot delete candidate with existing votes''))
     else
     (st\<lparr>candidates := delete_first (\<lambda>c. c_id c = cid) (candidates st)\<rparr>,
      Response 200 (Message ''Candidate deleted successfully'')))"

section \<open>Admission as the specification words it\<close>

text \<open>
  The rejections of the specification, and the order of the checks of \<open>admitVote\<close> as
  the specification lists them, written after its words: (1) the election exists,
  (2) its classification at \<open>now\<close> is Open, (3) a candidate with that id belongs to
  that election, (4) the voter has no Vote in that election. \<open>None\<close> means that the
  vote is admitted.
\<close>

datatype missing = MissingElection | MissingCandidate

datatype rejection = NotFound missing | NotOpen election_status | AlreadyVoted

definition spec_admitVote :: "store \<Rightarrow> oid \<Rightarrow> oid \<Rightarrow> oid \<Rightarrow> date \<Rightarrow> rejection option" where
  "spec_admitVote st voter_id election_id candidate_id now =
     (case Election_findById st election_id of
        None \<Rightarrow> Some (NotFound MissingElection)
      | Some election \<Rightarrow>
          if getElectionStatus election now \<noteq> Active
            then Some (NotOpen (getElectionStatus election now))
          else if \<not> list_ex (\<lambda>c. c_id c = candidate_id \<and> c_election c = election_id)
                     (candidates st)
            then Some (NotFound MissingCandidate)
          else if votes_of st voter_id election_id \<noteq> []
            then Some AlreadyVoted
          else None)"

text \<open>
  The rejection a response of the vote handler stands for: each of the handler's six
  refusals has its own status and message.
\<close>

definition rejection_of :: "response \<Rightarrow> rejection option" where
  "rejection_of r =
     (if r = Response 404 (Message ''Election not found'')
        then Some (NotFound MissingElection)
      else if r = Response 400 (Message ''Election is not active'')
        then Some (NotOpen Inactive)
      else if r = Response 400 (Message ''Election has not started yet'')
        then Some (NotOpen Upcoming)
      else if r = Response 400 (Message ''Election has ended'')
        then Some (NotOpen Ended)
      else if r = Response 404 (Message ''Candidate not found in this election'')
        then Some (NotFound MissingCandidate)
      else if r = Response 400 (Message ''You have already voted in this election'')
        then Some AlreadyVoted
      else None)"

section \<open>The counters and the Vote log\<close>

text \<open>
  The number of Vote records of a candidate in an election, and the stores in which
  the \<open>voteCount\<close> of every candidate is that number. \<open>castVotes\<close> runs a list of vote
  requests one after the other, each to its end, no store call failing.
\<close>

definition tally :: "store \<Rightarrow> oid \<Rightarrow> oid \<Rightarrow> nat" where
  "tally st e c = length (filter (\<lambda>v. v_election v = e \<and> v_candidate v = c) (votes st))"



section \<open>Example data\<close>

text \<open>
  An election open from instant 1000 to instant 2000 with two candidates and no vote
  yet, and two requests of voter 7 in it, one for each candidate.
\<close>

definition ex_election :: election where
  "ex_election = \<lparr>e_id = 3, title = ''Board'', e_description = ''Board election'',
     startDate = 1000, endDate = 2000, isActive = True, createdBy = 9\<rparr>"

definition ex_candidate :: "oid \<Rightarrow> string \<Rightarrow> int \<Rightarrow> candidate" where
  "ex_candidate i n k = \<lparr>c_id = i, name = n, party = ''Independent'', c_description = [],
     photo = [], c_election = 3, voteCount = k\<rparr>"

definition ex_store :: store where
  "ex_store = \<lparr>elections = [ex_election],
     candidates = [ex_candidate 10 ''Ada'' 0, ex_candidate 11 ''Bob'' 0], votes = []\<rparr>"

definition ex_vote :: "oid \<Rightarrow> oid \<Rightarrow> vote_req" where
  "ex_vote u c = \<lparr>user = u, electionId = 3, candidateId = Valid c\<rparr>"

text \<open>
  A race: both requests of voter 7 arrive, both pass the check for an existing vote
  before either inserts, then both try to insert.
\<close>

definition ex_race :: "event list" where
  "ex_race = [Arrive (ex_vote 7 10), Arrive (ex_vote 7 11),
     Advance 0 False 1500, Advance 0 False 1500, Advance 0 False 1500,
     Advance 1 False 1501, Advance 1 False 1501, Advance 1 False 1501,
     Advance 0 False 1502, Advance 1 False 1503, Advance 0 False 1504]"

text \<open>A later vote request, of voter 8 for candidate 11, handled to its end.\<close>

definition ex_later :: "event list" where
  "ex_later = [Arrive (ex_vote 8 11), Advance 0 False 1600, Advance 0 False 1600,
     Advance 0 False 1600, Advance 0 False 1601, Advance 0 False 1602]"

text \<open>
  The same request, and then the administrator renaming the election, as steps of the
  server with administration.
\<close>

definition ex_steps :: "step list" where
  "ex_steps = map VoteEvent ex_later @
     [Administration [ex_election\<lparr>title := ''Council''\<rparr>]
        [ex_candidate 10 ''Ada'' 1, ex_candidate 11 ''Bob'' 1]]"

text \<open>
  The same election with three candidates holding 3, 3 and 1 votes, cast by the voters
  21 to 27.
\<close>

definition ex_ballot :: "oid \<Rightarrow> oid \<Rightarrow> vote" where
  "ex_ballot u c = \<lparr>voter = u, v_candidate = c, v_election = 3, timestamp = 1500\<rparr>"

definition ex_tie_store :: store where
  "ex_tie_store = \<lparr>elections = [ex_election],
     candidates = [ex_candidate 10 ''Ada'' 3, ex_candidate 11 ''Bob'' 3,
                   ex_candidate 12 ''Cy'' 1],
     votes = [ex_ballot 21 10, ex_ballot 22 11, ex_ballot 23 10, ex_ballot 24 11,
              ex_ballot 25 12, ex_ballot 26 10, ex_ballot 27 11]\<rparr>"


definition ex_disable :: election_body where
  "ex_disable = \<lparr>b_title = None, b_description = None, b_startDate = None,
     b_endDate = None, b_isActive = Some False\<rparr>"

definition ex_voted_store :: store where
  "ex_voted_store = fst (castVote None 1500 (ex_vote 7 10) ex_store)"

definition ex_disabled_store :: store where
  "ex_disabled_store = fst (updateElection ex_voted_store 3 ex_disable)"

section \<open>Facts about the store calls and the vote handler\<close>

lemma find_None_list_ex: "(find P xs = None) = (\<not> list_ex P xs)"
  by (auto simp: find_None_iff list_ex_iff)

lemma Vote_findOne_None: "(Vote_findOne st u e = None) = (votes_of st u e = [])"
  by (auto simp: Vote_findOne_def votes_of_def find_None_iff filter_empty_conv)

lemma Vote_save_fresh:
  "votes_of st (voter v) (v_election v) = [] \<Longrightarrow>
   Vote_save st v = Inr (st\<lparr>votes := votes st @ [v]\<rparr>)"
  by (auto simp: Vote_save_def votes_of_def list_ex_iff filter_empty_conv)

lemma Vote_save_duplicate:
  "votes_of st (voter v) (v_election v) \<noteq> [] \<Longrightarrow> Vote_save st v = Inl DuplicateKey"
  by (auto simp: Vote_save_def votes_of_def list_ex_iff filter_empty_conv)

lemma gate_is_status:
  "getElectionStatus election now =
     (if \<not> isActive election then Inactive
      else if now < startDate election then Upcoming
      else if now > endDate election then Ended
      else Active)"
  by (simp add: getElectionStatus_def Let_def)

text \<open>The three ways a run of the handler can end.\<close>

lemma castVote_result:
  obtains
    (unchanged) r where "castVote failing now req st = (st, r)" "status r \<noteq> 201"
  | (inserted_only) cid election candidate where
      "candidateId req = Valid cid" "failing = Some 5"
      "Election_findById st (electionId req) = Some election"
      "getElectionStatus election now = Active"
      "Candidate_findOne st cid (electionId req) = Some candidate"
      "votes_of st (user req) (electionId req) = []"
      "castVote failing now req st =
         (st\<lparr>votes := votes st @ [newVote req cid now]\<rparr>,
          Response 500 (Message ''Server error''))"
  | (admitted) cid election candidate where
      "candidateId req = Valid cid"
      "Election_findById st (electionId req) = Some election"
      "getElectionStatus election now = Active"
      "Candidate_findOne st cid (electionId req) = Some candidate"
      "votes_of st (user req) (electionId req) = []"
      "castVote failing now req st =
         (Candidate_findByIdAndUpdate_inc (st\<lparr>votes := votes st @ [newVote req cid now]\<rparr>) cid,
          Response 201 (VoteCast (name candidate) (title election) now))"
proof (cases "candidateId req")
  case Invalid
  then show ?thesis by - (rule unchanged, simp add: castVote_def, simp)
next
  case (Valid cid)
  note cid = this
  show ?thesis
  proof (cases "failing = Some 1")
    case True
    with cid show ?thesis by - (rule unchanged, simp add: castVote_def, simp)
  next
    case f1: False
    show ?thesis
    proof (cases "Election_findById st (electionId req)")
      case None
      with cid f1 show ?thesis by - (rule unchanged, simp add: castVote_def, simp)
    next
      case (Some election)
      note found_e = this
      note election = cid f1 found_e
      consider "\<not> isActive election"
        | "isActive election" "now < startDate election"
        | "isActive election" "\<not> now < startDate election" "now > endDate election"
        | "isActive election" "\<not> now < startDate election" "\<not> now > endDate election"
        by blast
      then show ?thesis
      proof cases
        case 1
        with election show ?thesis by - (rule unchanged, simp add: castVote_def, simp)
      next
        case 2
        with election show ?thesis by - (rule unchanged, simp add: castVote_def, simp)
      next
        case 3
        with election show ?thesis by - (rule unchanged, simp add: castVote_def, simp)
      next
        case 4
        then have active: "getElectionStatus election now = Active"
          by (simp add: gate_is_status)
        note gate = election 4
        show ?thesis
        proof (cases "failing = Some 2")
          case True
          with gate show ?thesis by - (rule unchanged, simp add: castVote_def, simp)
        next
          case f2: False
          show ?thesis
          proof (cases "Candidate_findOne st cid (electionId req)")
            case None
            with gate f2 show ?thesis by - (rule unchanged, simp add: castVote_def, simp)
          next
            case (Some candidate)
            note found_c = this
            note candidate = gate f2 found_c
            show ?thesis
            proof (cases "failing = Some 3")
              case True
              with candidate show ?thesis by - (rule unchanged, simp add: castVote_def, simp)
            next
              case f3: False
              show ?thesis
              proof (cases "Vote_findOne st (user req) (electionId req)")
                case (Some existingVote)
                with candidate f3 show ?thesis
                  by - (rule unchanged, simp add: castVote_def, simp)
              next
                case None
                then have fresh: "votes_of st (user req) (electionId req) = []"
                  by (simp add: Vote_findOne_None)
                then have save: "Vote_save st (newVote req cid now) =
                    Inr (st\<lparr>votes := votes st @ [newVote req cid now]\<rparr>)"
                  by (intro Vote_save_fresh) (simp add: newVote_def)
                note ready = candidate f3 None save
                show ?thesis
                proof (cases "failing = Some 4")
                  case True
                  with ready show ?thesis by - (rule unchanged, simp add: castVote_def, simp)
                next
                  case f4: False
                  show ?thesis
                  proof (cases "failing = Some 5")
                    case True
                    with ready show ?thesis
                      by - (rule inserted_only [OF cid True found_e active found_c fresh],
                          simp add: castVote_def)
                  next
                    case False
                    with ready f4 show ?thesis
                      by - (rule admitted [OF cid found_e active found_c fresh],
                          simp add: castVote_def newVote_def)
                  qed
                qed
              qed
            qed
          qed
        qed
      qed
    qed
  qed
qed

text \<open>
  The handler run alone is the request taking its five steps in a row on the server:
  the two renderings of the handler agree.
\<close>

lemma castVote_as_steps:
  "run \<lparr>db = st, tasks = [(req, AwaitElection)]\<rparr>
       [Advance 0 (failing = Some 1) now, Advance 0 (failing = Some 2) now,
        Advance 0 (failing = Some 3) now, Advance 0 (failing = Some 4) now,
        Advance 0 (failing = Some 5) now] =
     \<lparr>db = fst (castVote failing now req st),
      tasks = [(req, Finished (snd (castVote failing now req st)))]\<rparr>"
proof (cases "candidateId req")
  case Invalid
  then show ?thesis by (simp add: run_def castVote_def)
next
  case (Valid cid)
  note cid = this
  show ?thesis
  proof (cases "failing = Some 1")
    case True
    with cid show ?thesis by (simp add: run_def castVote_def)
  next
    case f1: False
    show ?thesis
    proof (cases "Election_findById st (electionId req)")
      case None
      with cid f1 show ?thesis by (simp add: run_def castVote_def)
    next
      case (Some election)
      note election = cid f1 this
      consider "\<not> isActive election"
        | "isActive election" "now < startDate election"
        | "isActive election" "\<not> now < startDate election" "now > endDate election"
        | "isActive election" "\<not> now < startDate election" "\<not> now > endDate election"
        by blast
      then show ?thesis
      proof cases
        case 1
        with election show ?thesis by (simp add: run_def castVote_def)
      next
        case 2
        with election show ?thesis by (simp add: run_def castVote_def)
      next
        case 3
        with election show ?thesis by (simp add: run_def castVote_def)
      next
        case 4
        note gate = election this
        show ?thesis
        proof (cases "failing = Some 2")
          case True
          with gate show ?thesis by (simp add: run_def castVote_def)
        next
          case f2: False
          show ?thesis
          proof (cases "Candidate_findOne st cid (electionId req)")
            case None
            with gate f2 show ?thesis by (simp add: run_def castVote_def)
          next
            case (Some candidate)
            note candidate = gate this
            show ?thesis
            proof (cases "failing = Some 3")
              case True
              with candidate show ?thesis by (simp add: run_def castVote_def)
            next
              case f3: False
              show ?thesis
              proof (cases "Vote_findOne st (user req) (electionId req)")
                case (Some existingVote)
                with candidate f2 f3 show ?thesis by (simp add: run_def castVote_def)
              next
                case None
                note fresh = candidate this
                show ?thesis
                proof (cases "failing = Some 4")
                  case True
                  with fresh show ?thesis by (simp add: run_def castVote_def)
                next
                  case f4: False
                  show ?thesis
                  proof (cases "Vote_save st (newVote req cid now)")
                    case (Inl err)
                    with fresh f2 f3 f4 show ?thesis by (simp add: run_def castVote_def)
                  next
                    case (Inr st')
                    with fresh f2 f3 f4 show ?thesis by (simp add: run_def castVote_def)
                  qed
                qed
              qed
            qed
          qed
        qed
      qed
    qed
  qed
qed

lemma list_ex_find: "list_ex P xs \<Longrightarrow> \<exists>x. find P xs = Some x"
  by (cases "find P xs") (simp_all add: find_None_list_ex)

lemma find_list_ex: "find P xs = Some x \<Longrightarrow> list_ex P xs"
  using find_None_list_ex [of P xs] by simp

lemma Candidate_findOne_None:
  "(Candidate_findOne st c e = None) =
     (\<not> list_ex (\<lambda>d. c_id d = c \<and> c_election d = e) (candidates st))"
  by (simp add: Candidate_findOne_def find_None_list_ex)

lemma list_ex_keys:
  "list_ex (\<lambda>c. c_id c = i \<and> c_election c = e) cs =
     ((i, e) \<in> set (map (\<lambda>c. (c_id c, c_election c)) cs))"
  by (auto simp: list_ex_iff)


lemma inc_voteCount_ids [simp]: "map c_id (inc_voteCount i cs) = map c_id cs"
  by (induction cs) auto

lemma inc_voteCount_keys [simp]:
  "map (\<lambda>c. (c_id c, c_election c)) (inc_voteCount i cs) =
     map (\<lambda>c. (c_id c, c_election c)) cs"
  by (induction cs) auto

lemma votes_of_append:
  "votes_of (st\<lparr>votes := votes st @ [v]\<rparr>) u e =
     votes_of st u e @ (if voter v = u \<and> v_election v = e then [v] else [])"
  by (simp add: votes_of_def)

lemma votes_of_inc [simp]:
  "votes_of (Candidate_findByIdAndUpdate_inc st i) u e = votes_of st u e"
  by (simp add: votes_of_def Candidate_findByIdAndUpdate_inc_def)

lemma castVote_already_voted:
  assumes "candidateId req = Valid cid"
    and "Election_findById st (electionId req) = Some election"
    and "getElectionStatus election now = Active"
    and "list_ex (\<lambda>c. c_id c = cid \<and> c_election c = electionId req) (candidates st)"
    and "votes_of st (user req) (electionId req) \<noteq> []"
  shows "castVote None now req st =
           (st, Response 400 (Message ''You have already voted in this election''))"
proof -
  from assms(3) have gate: "isActive election" "\<not> now < startDate election"
    "\<not> now > endDate election"
    by (simp_all add: gate_is_status split: if_splits)
  from assms(4) obtain candidate where
    c: "Candidate_findOne st cid (electionId req) = Some candidate"
    using list_ex_find [OF assms(4)] by (auto simp: Candidate_findOne_def)
  from assms(5) obtain existingVote where
    v: "Vote_findOne st (user req) (electionId req) = Some existingVote"
    by (auto simp: Vote_findOne_None [symmetric])
  from assms(1,2) gate c v show ?thesis by (simp add: castVote_def)
qed

text \<open>
  A property of stores that every step of a vote request keeps holds in every state
  the server reaches.
\<close>

lemma run_invariant:
  assumes step: "\<And>rejects now req st task. P st \<Longrightarrow> P (fst (vote_step rejects now req st task))"
    and init: "P (db s)"
  shows "P (db (run s evs))"
  unfolding run_def using init
proof (induction evs arbitrary: s)
  case Nil
  then show ?case by simp
next
  case (Cons ev evs)
  have "P (db (fire s ev))"
  proof (cases ev)
    case (Arrive req)
    with Cons.prems show ?thesis by simp
  next
    case (Advance i rejects now)
    show ?thesis
    proof (cases "i < length (tasks s)")
      case True
      obtain req task where rt: "tasks s ! i = (req, task)" by (cases "tasks s ! i")
      obtain st' task' where st: "vote_step rejects now req (db s) task = (st', task')"
        by (cases "vote_step rejects now req (db s) task")
      from step [OF Cons.prems, of rejects now req task] st have "P st'" by simp
      with Advance True rt st show ?thesis by simp
    next
      case False
      with Advance Cons.prems show ?thesis by simp
    qed
  qed
  from Cons.IH [OF this] show ?case by simp
qed

lemma vote_step_kept:
  assumes "kept st0 u e st"
  shows "kept st0 u e (fst (vote_step rejects now req st task))"
proof (cases task)
  case (AwaitSave cid election candidate vote)
  show ?thesis
  proof (cases "Vote_save st vote")
    case (Inl err)
    with AwaitSave assms show ?thesis by simp
  next
    case (Inr st')
    then have "st' = st\<lparr>votes := votes st @ [vote]\<rparr>"
      by (simp add: Vote_save_def split: if_splits)
    with Inr AwaitSave assms show ?thesis
      by (simp add: kept_def votes_of_append)
  qed
next
  case (AwaitIncrement cid election candidate vote)
  with assms show ?thesis
    by (simp add: kept_def Candidate_findByIdAndUpdate_inc_def votes_of_def)
qed (use assms in \<open>simp_all split: param.splits option.splits\<close>)

lemma getResults_candidates:
  assumes "results_of (getResults srt st uid eid) = Some r"
  shows "r_candidates r = srt (Candidate_find st eid)"
    and "Election_findById st eid = Some (r_election r)"
    and "totalVotes r = Vote_countDocuments (\<lambda>v. v_election v = eid) st"
  using assms
  by (auto simp: getResults_def results_of_def Let_def split: option.splits)

lemma stable_desc_sorts: "sorts_by_voteCount_desc stable_desc"
proof -
  have "sorted_wrt (\<lambda>a b. voteCount a \<ge> voteCount b) (stable_desc cs)" for cs
  proof -
    have "sorted (map (\<lambda>c. - voteCount c) (sort_key (\<lambda>c. - voteCount c) cs))"
      by (rule sorted_sort_key)
    then show ?thesis
      by (simp add: stable_desc_def sorted_map)
  qed
  then show ?thesis
    by (simp add: sorts_by_voteCount_desc_def stable_desc_def)
qed

subsection \<open>The example stores, evaluated\<close>

lemma ex_voted_store_eq:
  "castVote None 1500 (ex_vote 7 10) ex_store =
     (ex_store\<lparr>candidates := [ex_candidate 10 ''Ada'' 1, ex_candidate 11 ''Bob'' 0],
               votes := [newVote (ex_vote 7 10) 10 1500]\<rparr>,
      Response 201 (VoteCast ''Ada'' ''Board'' 1500))"
  by (simp add: castVote_def ex_store_def ex_vote_def ex_election_def ex_candidate_def
      Election_findById_def Candidate_findOne_def Vote_findOne_def Vote_save_def
      Candidate_findByIdAndUpdate_inc_def newVote_def)

lemma ex_voted_store_val:
  "ex_voted_store =
     ex_store\<lparr>candidates := [ex_candidate 10 ''Ada'' 1, ex_candidate 11 ''Bob'' 0],
               votes := [newVote (ex_vote 7 10) 10 1500]\<rparr>"
  by (simp add: ex_voted_store_def ex_voted_store_eq)

lemma ex_voted_store_cast:
  "castVote None 1500 (ex_vote 7 10) ex_store =
     (ex_voted_store, Response 201 (VoteCast ''Ada'' ''Board'' 1500))"
  by (simp add: ex_voted_store_def ex_voted_store_eq)

lemma ex_disable_accepted:
  "updateElection ex_voted_store 3 ex_disable =
     (\<lparr>elections = [ex_election\<lparr>isActive := False\<rparr>],
       candidates = [ex_candidate 10 ''Ada'' 1, ex_candidate 11 ''Bob'' 0],
       votes = [newVote (ex_vote 7 10) 10 1500]\<rparr>,
      Response 200 (ElectionDoc (ex_election\<lparr>isActive := False\<rparr>)))"
  by (simp add: ex_voted_store_val ex_store_def ex_election_def
      newVote_def ex_vote_def updateElection_def validationErrors_def rejected_def
      ex_disable_def Election_findById_def Vote_countDocuments_def Election_save_def
      assignBody_def endDate_validator_def)

lemma ex_disabled_store_eq:
  "ex_disabled_store =
     \<lparr>elections = [ex_election\<lparr>isActive := False\<rparr>],
      candidates = [ex_candidate 10 ''Ada'' 1, ex_candidate 11 ''Bob'' 0],
      votes = [newVote (ex_vote 7 10) 10 1500]\<rparr>"
  by (simp add: ex_disabled_store_def ex_disable_accepted)

lemma ex_race_outcome:
  "run \<lparr>db = ex_store, tasks = []\<rparr> ex_race =
     \<lparr>db = ex_store\<lparr>candidates := [ex_candidate 10 ''Ada'' 1, ex_candidate 11 ''Bob'' 0],
          votes := [newVote (ex_vote 7 10) 10 1500]\<rparr>,
      tasks = [(ex_vote 7 10, Finished (Response 201 (VoteCast ''Ada'' ''Board'' 1500))),
               (ex_vote 7 11,
                Finished (Response 400 (Message ''You have already voted in this election'')))]\<rparr>"
  by (simp add: run_def ex_race_def ex_store_def ex_vote_def ex_election_def ex_candidate_def
      Election_findById_def Candidate_findOne_def Vote_findOne_def Vote_save_def
      Candidate_findByIdAndUpdate_inc_def newVote_def)

section \<open>One vote per voter and election\<close>

lemma Vote_save_votes_of:
  assumes "Vote_save st v = Inr st'" and "length (votes_of st u e) \<le> 1"
  shows "length (votes_of st' u e) \<le> 1"
proof -
  from assms(1) have none: "\<not> list_ex (\<lambda>w. voter w = voter v \<and> v_election w = v_election v) (votes st)"
    and st': "st' = st\<lparr>votes := votes st @ [v]\<rparr>"
    by (auto simp: Vote_save_def split: if_splits)
  show ?thesis
  proof (cases "voter v = u \<and> v_election v = e")
    case True
    with none have "votes_of st u e = []"
      by (auto simp: votes_of_def list_ex_iff filter_empty_conv)
    with True st' show ?thesis by (simp add: votes_of_append)
  next
    case False
    with st' assms(2) show ?thesis by (auto simp: votes_of_append)
  qed
qed

lemma vote_step_votes_of:
  assumes "length (votes_of st u e) \<le> 1"
  shows "length (votes_of (fst (vote_step rejects now req st task)) u e) \<le> 1"
proof (cases task)
  case (AwaitSave cid election candidate vote)
  then show ?thesis
    using assms Vote_save_votes_of [of st vote _ u e]
    by (auto split: sum.splits)
qed (use assms in \<open>auto split: param.splits option.splits\<close>)

text \<open>
  C1. In every state the server reaches, a voter has at most one Vote record in an
  election. Starting from a store where this holds (one with no votes, for instance),
  it holds after every sequence of events: vote requests arriving in any number, for
  any voter, election and candidate, their store calls interleaved in any order,
  any of them failing. What keeps it is the unique index that \<open>vote.save\<close> enforces:
  a request whose check for an existing vote ran before another request's insertion
  still cannot insert a second record.
\<close>

theorem one_vote_per_voter_election:
  assumes "length (votes_of (db s) u e) \<le> 1"
  shows "length (votes_of (db (run s evs)) u e) \<le> 1"
proof (rule run_invariant [where P = "\<lambda>st. length (votes_of st u e) \<le> 1"])
  show "length (votes_of (fst (vote_step rejects now req st task)) u e) \<le> 1"
    if "length (votes_of st u e) \<le> 1" for rejects now req st task
    using that by (rule vote_step_votes_of)
  show "length (votes_of (db s) u e) \<le> 1" by (rule assms)
qed

text \<open>
  In the race of the example both requests of voter 7 pass the check for an existing
  vote. The first insertion succeeds; the second is refused by the index and answered
  as a vote already cast (\<open>ex_race_outcome\<close>). One Vote record is left.
\<close>

theorem one_vote_per_voter_election_witness:
  "length (votes_of ex_store 7 3) \<le> 1 \<and>
   length (votes_of (db (run \<lparr>db = ex_store, tasks = []\<rparr> ex_race)) 7 3) \<le> 1"
  using one_vote_per_voter_election [of "\<lparr>db = ex_store, tasks = []\<rparr>" 7 3 ex_race]
  by (simp add: votes_of_def ex_store_def)

section \<open>The vote and the counter\<close>





text \<open>
  With other requests in between, a 201 does not say that a counter was incremented
  either: the handler does not look at what \<open>findByIdAndUpdate\<close> returns. Here the
  administrator deletes candidate 10, who holds no vote yet, after the request of
  voter 7 has found the candidate and before it inserts its vote.
\<close>

lemma ex_delete_race:
  "vote_step False 1500 (ex_vote 7 10) ex_store AwaitElection =
     (ex_store, AwaitCandidate 10 ex_election) \<and>
   vote_step False 1500 (ex_vote 7 10) ex_store (AwaitCandidate 10 ex_election) =
     (ex_store, AwaitExistingVote 10 ex_election (ex_candidate 10 ''Ada'' 0)) \<and>
   deleteCandidate ex_store 10 =
     (ex_store\<lparr>candidates := [ex_candidate 11 ''Bob'' 0]\<rparr>,
      Response 200 (Message ''Candidate deleted successfully'')) \<and>
   vote_step False 1500 (ex_vote 7 10) (ex_store\<lparr>candidates := [ex_candidate 11 ''Bob'' 0]\<rparr>)
       (AwaitExistingVote 10 ex_election (ex_candidate 10 ''Ada'' 0)) =
     (ex_store\<lparr>candidates := [ex_candidate 11 ''Bob'' 0]\<rparr>,
      AwaitSave 10 ex_election (ex_candidate 10 ''Ada'' 0) (newVote (ex_vote 7 10) 10 1500)) \<and>
   vote_step False 1500 (ex_vote 7 10) (ex_store\<lparr>candidates := [ex_candidate 11 ''Bob'' 0]\<rparr>)
       (AwaitSave 10 ex_election (ex_candidate 10 ''Ada'' 0) (newVote (ex_vote 7 10) 10 1500)) =
     (ex_store\<lparr>candidates := [ex_candidate 11 ''Bob'' 0],
               votes := [newVote (ex_vote 7 10) 10 1500]\<rparr>,
      AwaitIncrement 10 ex_election (ex_candidate 10 ''Ada'' 0)
        (newVote (ex_vote 7 10) 10 1500)) \<and>
   vote_step False 1500 (ex_vote 7 10)
       (ex_store\<lparr>candidates := [ex_candidate 11 ''Bob'' 0],
                 votes := [newVote (ex_vote 7 10) 10 1500]\<rparr>)
       (AwaitIncrement 10 ex_election (ex_candidate 10 ''Ada'' 0)
         (newVote (ex_vote 7 10) 10 1500)) =
     (ex_store\<lparr>candidates := [ex_candidate 11 ''Bob'' 0],
               votes := [newVote (ex_vote 7 10) 10 1500]\<rparr>,
      Finished (Response 201 (VoteCast ''Ada'' ''Board'' 1500)))"
  by (simp add: ex_store_def ex_vote_def ex_election_def ex_candidate_def
      Election_findById_def Candidate_findOne_def Vote_findOne_def Vote_save_def
      Candidate_findByIdAndUpdate_inc_def newVote_def deleteCandidate_def
      Candidate_findById_def Vote_countDocuments_def)

section \<open>The order of the checks\<close>

text \<open>
  C3. For well-formed ids and a store that answers, the handler refuses exactly as
  the specification orders the checks: no such election, then the lifecycle state of
  the election when it is not Open, then no such candidate in the election, then a
  vote already cast; it answers 201 exactly when none of the four applies. Each
  refusal has a status and message of its own, read back by \<open>rejection_of\<close>.
\<close>

theorem admitVote_order:
  "rejection_of (snd (castVote None now
       \<lparr>user = voter_id, electionId = election_id, candidateId = Valid candidate_id\<rparr> st)) =
     spec_admitVote st voter_id election_id candidate_id now \<and>
   (status (snd (castVote None now
       \<lparr>user = voter_id, electionId = election_id, candidateId = Valid candidate_id\<rparr> st)) = 201) =
     (spec_admitVote st voter_id election_id candidate_id now = None)"
proof (cases "Election_findById st election_id")
  case None
  then show ?thesis
    by (simp add: castVote_def spec_admitVote_def rejection_of_def)
next
  case (Some election)
  note election = this
  show ?thesis
  proof (cases "getElectionStatus election now = Active")
    case False
    with election show ?thesis
      by (simp add: castVote_def spec_admitVote_def rejection_of_def gate_is_status
          split: if_splits)
  next
    case True
    then have isopen: "isActive election" "\<not> now < startDate election"
      "\<not> now > endDate election"
      by (simp_all add: gate_is_status split: if_splits)
    show ?thesis
    proof (cases "Candidate_findOne st candidate_id election_id")
      case None
      with election isopen True show ?thesis
        using Candidate_findOne_None [of st candidate_id election_id]
        by (simp add: castVote_def spec_admitVote_def rejection_of_def)
    next
      case (Some candidate)
      note candidate = this
      then have ex: "list_ex (\<lambda>d. c_id d = candidate_id \<and> c_election d = election_id) (candidates st)"
        using Candidate_findOne_None [of st candidate_id election_id] by simp
      show ?thesis
      proof (cases "Vote_findOne st voter_id election_id")
        case None
        then have fresh: "votes_of st voter_id election_id = []"
          by (simp add: Vote_findOne_None)
        with None election isopen True candidate ex show ?thesis
          by (simp add: castVote_def spec_admitVote_def rejection_of_def Let_def
              Vote_save_fresh newVote_def)
      next
        case (Some existingVote)
        then have "votes_of st voter_id election_id \<noteq> []"
          using Vote_findOne_None [of st voter_id election_id] by simp
        with Some election isopen True candidate ex show ?thesis
          by (simp add: castVote_def spec_admitVote_def rejection_of_def)
      qed
    qed
  qed
qed

text \<open>
  Scenario A of the specification: an enabled election from 1000 to 2000. A vote one
  instant early is refused as Upcoming, one inside is admitted, one instant late is
  refused as Closed.
\<close>

theorem admitVote_order_witness:
  "spec_admitVote ex_store 7 3 10 999 = Some (NotOpen Upcoming) \<and>
   spec_admitVote ex_store 7 3 10 1500 = None \<and>
   spec_admitVote ex_store 7 3 10 2001 = Some (NotOpen Ended) \<and>
   spec_admitVote ex_store 7 4 10 1500 = Some (NotFound MissingElection) \<and>
   spec_admitVote ex_store 7 3 12 1500 = Some (NotFound MissingCandidate) \<and>
   spec_admitVote ex_voted_store 7 3 11 1500 = Some AlreadyVoted"
proof -
  have a: "snd (castVote None 999 \<lparr>user = 7, electionId = 3, candidateId = Valid 10\<rparr> ex_store) =
      Response 400 (Message ''Election has not started yet'')"
    and b: "snd (castVote None 1500 \<lparr>user = 7, electionId = 3, candidateId = Valid 10\<rparr> ex_store) =
      Response 201 (VoteCast ''Ada'' ''Board'' 1500)"
    and c: "snd (castVote None 2001 \<lparr>user = 7, electionId = 3, candidateId = Valid 10\<rparr> ex_store) =
      Response 400 (Message ''Election has ended'')"
    and d: "snd (castVote None 1500 \<lparr>user = 7, electionId = 4, candidateId = Valid 10\<rparr> ex_store) =
      Response 404 (Message ''Election not found'')"
    and e: "snd (castVote None 1500 \<lparr>user = 7, electionId = 3, candidateId = Valid 12\<rparr> ex_store) =
      Response 404 (Message ''Candidate not found in this election'')"
    by (simp_all add: castVote_def ex_store_def ex_election_def ex_candidate_def
        Election_findById_def Candidate_findOne_def Vote_findOne_def Vote_save_def
        Candidate_findByIdAndUpdate_inc_def newVote_def)
  have f: "snd (castVote None 1500 \<lparr>user = 7, electionId = 3, candidateId = Valid 11\<rparr>
        ex_voted_store) = Response 400 (Message ''You have already voted in this election'')"
    by (simp add: ex_voted_store_val castVote_def ex_store_def
        ex_election_def ex_candidate_def ex_vote_def Election_findById_def
        Candidate_findOne_def Vote_findOne_def newVote_def)
  from admitVote_order [of 999 7 3 10 ex_store] a
  have 1: "spec_admitVote ex_store 7 3 10 999 = Some (NotOpen Upcoming)"
    by (simp add: rejection_of_def)
  from admitVote_order [of 1500 7 3 10 ex_store] b
  have 2: "spec_admitVote ex_store 7 3 10 1500 = None"
    by simp
  from admitVote_order [of 2001 7 3 10 ex_store] c
  have 3: "spec_admitVote ex_store 7 3 10 2001 = Some (NotOpen Ended)"
    by (simp add: rejection_of_def)
  from admitVote_order [of 1500 7 4 10 ex_store] d
  have 4: "spec_admitVote ex_store 7 4 10 1500 = Some (NotFound MissingElection)"
    by (simp add: rejection_of_def)
  from admitVote_order [of 1500 7 3 12 ex_store] e
  have 5: "spec_admitVote ex_store 7 3 12 1500 = Some (NotFound MissingCandidate)"
    by (simp add: rejection_of_def)
  from admitVote_order [of 1500 7 3 11 ex_voted_store] f
  have 6: "spec_admitVote ex_voted_store 7 3 11 1500 = Some AlreadyVoted"
    by (simp add: rejection_of_def)
  from 1 2 3 4 5 6 show ?thesis by simp
qed

section \<open>Lifecycle classification\<close>

text \<open>
  C4. For every election (a saved document, so its end date is after its start date) and
  every instant, the classification is Inactive exactly when the election is disabled,
  Upcoming exactly when it is enabled and the instant is before the start, Active (Open)
  exactly when it is enabled and the instant is between start and end, both ends
  included, and Ended (Closed) exactly when it is enabled and the instant is after the
  end. The voting page's \<open>isElectionActive\<close> is the Active case.
\<close>

theorem classify_exact:
  assumes "endDate_validator election"
  shows "(getElectionStatus election now = Inactive) = (\<not> isActive election) \<and>
         (getElectionStatus election now = Upcoming) =
           (isActive election \<and> now < startDate election) \<and>
         (getElectionStatus election now = Active) =
           (isActive election \<and> startDate election \<le> now \<and> now \<le> endDate election) \<and>
         (getElectionStatus election now = Ended) =
           (isActive election \<and> now > endDate election) \<and>
         isElectionActive election now = (getElectionStatus election now = Active)"
  using assms
  by (auto simp: getElectionStatus_def isElectionActive_def endDate_validator_def Let_def)

theorem classify_exact_witness:
  "endDate_validator ex_election \<and>
   getElectionStatus ex_election 999 = Upcoming \<and>
   getElectionStatus ex_election 1000 = Active \<and>
   getElectionStatus ex_election 2000 = Active \<and>
   getElectionStatus ex_election 2001 = Ended \<and>
   getElectionStatus (ex_election\<lparr>isActive := False\<rparr>) 1500 = Inactive"
  using classify_exact [of ex_election 999] classify_exact [of ex_election 1000]
    classify_exact [of ex_election 2000] classify_exact [of ex_election 2001]
    classify_exact [of "ex_election\<lparr>isActive := False\<rparr>" 1500]
  by (simp add: endDate_validator_def ex_election_def)

section \<open>Resubmission\<close>

lemma run_any_invariant:
  assumes step: "\<And>rejects now req st task. P st \<Longrightarrow> P (fst (vote_step rejects now req st task))"
    and admin: "\<And>st es cs. P st \<Longrightarrow> P (st\<lparr>elections := es, candidates := cs\<rparr>)"
    and init: "P (db s)"
  shows "P (db (run_any s steps))"
  unfolding run_any_def using init
proof (induction steps arbitrary: s)
  case Nil
  then show ?case by simp
next
  case (Cons a steps)
  have "P (db (fire_any s a))"
  proof (cases a)
    case (VoteEvent ev)
    from run_invariant [of P s "[ev]", OF step Cons.prems] VoteEvent show ?thesis
      by (simp add: run_def)
  next
    case (Administration es cs)
    with admin [OF Cons.prems] show ?thesis by simp
  qed
  from Cons.IH [OF this] show ?case by simp
qed

lemma vote_step_has_voted:
  assumes "votes_of st u e \<noteq> []"
  shows "votes_of (fst (vote_step rejects now req st task)) u e \<noteq> []"
proof (cases task)
  case (AwaitSave cid election candidate vote)
  show ?thesis
  proof (cases "Vote_save st vote")
    case (Inl err)
    with AwaitSave assms show ?thesis by simp
  next
    case (Inr st')
    then have "st' = st\<lparr>votes := votes st @ [vote]\<rparr>"
      by (simp add: Vote_save_def split: if_splits)
    with Inr AwaitSave assms show ?thesis by (simp add: votes_of_append)
  qed
qed (use assms in \<open>simp_all split: param.splits option.splits\<close>)

lemma castVote_not_again:
  assumes "votes_of st (user req) (electionId req) \<noteq> []"
  shows "status (snd (castVote None now req st)) \<noteq> 201 \<and> fst (castVote None now req st) = st"
proof (cases "None :: nat option" now req st rule: castVote_result)
  case (unchanged r)
  then show ?thesis by simp
next
  case (inserted_only cid election candidate)
  then show ?thesis by simp
next
  case (admitted cid election candidate)
  with assms show ?thesis by simp
qed

text \<open>
  C5, as the handler has it. A vote request was answered 201, and the same request
  (same voter, election, candidate and clock) is made again, the store answering.
  If only vote requests were handled in between, in whatever interleaving, it is
  answered as a vote already cast and leaves the store as it is. Whatever vote
  requests and administrative requests were handled in between, it is never answered
  201 again and leaves the store as it is; and it is answered as a vote already cast
  whenever the election is then still Open at that clock and the candidate still
  belongs to it, the two checks that come before the check for an existing vote. And
  the insertion step of a request, in a store where the voter already has a vote in
  the election (another request inserted it after this one's check), is answered as a
  vote already cast, the store unchanged: the duplicate-key error is not answered as
  a server error.
\<close>

theorem resubmission_already_voted:
  assumes "castVote None now req st = (st1, r)" and "status r = 201"
  shows "castVote None now req (db (run \<lparr>db = st1, tasks = ts\<rparr> evs)) =
           (db (run \<lparr>db = st1, tasks = ts\<rparr> evs),
            Response 400 (Message ''You have already voted in this election'')) \<and>
         status (snd (castVote None now req (db (run_any \<lparr>db = st1, tasks = ts\<rparr> steps)))) \<noteq> 201 \<and>
         fst (castVote None now req (db (run_any \<lparr>db = st1, tasks = ts\<rparr> steps))) =
           db (run_any \<lparr>db = st1, tasks = ts\<rparr> steps) \<and>
         (Election_findById (db (run_any \<lparr>db = st1, tasks = ts\<rparr> steps)) (electionId req) =
              Some election2 \<and>
          getElectionStatus election2 now = Active \<and>
          candidateId req = Valid cid2 \<and>
          list_ex (\<lambda>c. c_id c = cid2 \<and> c_election c = electionId req)
            (candidates (db (run_any \<lparr>db = st1, tasks = ts\<rparr> steps))) \<longrightarrow>
          castVote None now req (db (run_any \<lparr>db = st1, tasks = ts\<rparr> steps)) =
            (db (run_any \<lparr>db = st1, tasks = ts\<rparr> steps),
             Response 400 (Message ''You have already voted in this election''))) \<and>
         (votes_of st' (voter v) (v_election v) \<noteq> [] \<longrightarrow>
            vote_step False now' req' st' (AwaitSave cid' election' candidate' v) =
              (st', Finished (Response 400 (Message ''You have already voted in this election''))))"
proof (intro conjI)
  show "votes_of st' (voter v) (v_election v) \<noteq> [] \<longrightarrow>
            vote_step False now' req' st' (AwaitSave cid' election' candidate' v) =
              (st', Finished (Response 400 (Message ''You have already voted in this election'')))"
    by (simp add: Vote_save_duplicate)
next
  let ?st2 = "db (run \<lparr>db = st1, tasks = ts\<rparr> evs)"
  show "castVote None now req ?st2 =
           (?st2, Response 400 (Message ''You have already voted in this election''))"
  proof (cases "None :: nat option" now req st rule: castVote_result)
    case (unchanged r')
    with assms show ?thesis by simp
  next
    case (inserted_only cid election candidate)
    then show ?thesis by simp
  next
    case (admitted cid election candidate)
    from admitted(6) assms(1) have st1: "st1 =
        Candidate_findByIdAndUpdate_inc (st\<lparr>votes := votes st @ [newVote req cid now]\<rparr>) cid"
      by simp
    have "kept st (user req) (electionId req) st1"
      unfolding st1
      by (simp add: kept_def Candidate_findByIdAndUpdate_inc_def votes_of_def newVote_def)
    then have "kept st (user req) (electionId req) ?st2"
      using run_invariant [of "kept st (user req) (electionId req)" "\<lparr>db = st1, tasks = ts\<rparr>" evs]
        vote_step_kept
      by simp
    then have e: "elections ?st2 = elections st"
      and k: "map (\<lambda>c. (c_id c, c_election c)) (candidates ?st2) =
        map (\<lambda>c. (c_id c, c_election c)) (candidates st)"
      and v: "votes_of ?st2 (user req) (electionId req) \<noteq> []"
      by (simp_all add: kept_def)
    from e admitted(2) have e2: "Election_findById ?st2 (electionId req) = Some election"
      by (simp add: Election_findById_def)
    from admitted(4) have "list_ex (\<lambda>c. c_id c = cid \<and> c_election c = electionId req) (candidates st)"
      by (simp add: Candidate_findOne_def find_list_ex)
    with k have c2: "list_ex (\<lambda>c. c_id c = cid \<and> c_election c = electionId req) (candidates ?st2)"
      by (simp only: list_ex_keys)
    from castVote_already_voted [OF admitted(1) e2 admitted(3) c2 v] show ?thesis .
  qed
next
  let ?st3 = "db (run_any \<lparr>db = st1, tasks = ts\<rparr> steps)"
  have voted1: "votes_of st1 (user req) (electionId req) \<noteq> []"
  proof (cases "None :: nat option" now req st rule: castVote_result)
    case (unchanged r')
    with assms show ?thesis by simp
  next
    case (inserted_only cid election candidate)
    then show ?thesis by simp
  next
    case (admitted cid election candidate)
    from admitted(6) assms(1) have "st1 =
        Candidate_findByIdAndUpdate_inc (st\<lparr>votes := votes st @ [newVote req cid now]\<rparr>) cid"
      by simp
    then show ?thesis
      by (simp add: votes_of_append newVote_def)
  qed
  have voted: "votes_of ?st3 (user req) (electionId req) \<noteq> []"
  proof (rule run_any_invariant
      [where P = "\<lambda>st. votes_of st (user req) (electionId req) \<noteq> []"])
    show "votes_of (fst (vote_step rejects now req' st task)) (user req) (electionId req) \<noteq> []"
      if "votes_of st (user req) (electionId req) \<noteq> []" for rejects now req' st task
      using that by (rule vote_step_has_voted)
    show "votes_of (st\<lparr>elections := es, candidates := cs\<rparr>) (user req) (electionId req) \<noteq> []"
      if "votes_of st (user req) (electionId req) \<noteq> []" for st es cs
      using that by (simp add: votes_of_def)
    show "votes_of (db \<lparr>db = st1, tasks = ts\<rparr>) (user req) (electionId req) \<noteq> []"
      using voted1 by simp
  qed
  from castVote_not_again [OF voted]
  show "status (snd (castVote None now req ?st3)) \<noteq> 201"
    and "fst (castVote None now req ?st3) = ?st3"
    by simp_all
  show "Election_findById ?st3 (electionId req) = Some election2 \<and>
          getElectionStatus election2 now = Active \<and>
          candidateId req = Valid cid2 \<and>
          list_ex (\<lambda>c. c_id c = cid2 \<and> c_election c = electionId req) (candidates ?st3) \<longrightarrow>
          castVote None now req ?st3 =
            (?st3, Response 400 (Message ''You have already voted in this election''))"
    using castVote_already_voted [of req cid2 ?st3 election2 now] voted by blast
qed

text \<open>
  After the vote of voter 7, voter 8 votes as well, and the administrator renames the
  election; voter 7's request made again is refused as already cast. So is the
  insertion step of a second request of voter 7 that had passed its check before the
  first insertion.
\<close>

lemma ex_steps_store:
  "db (run_any \<lparr>db = ex_voted_store, tasks = []\<rparr> ex_steps) =
     \<lparr>elections = [ex_election\<lparr>title := ''Council''\<rparr>],
      candidates = [ex_candidate 10 ''Ada'' 1, ex_candidate 11 ''Bob'' 1],
      votes = [newVote (ex_vote 7 10) 10 1500, newVote (ex_vote 8 11) 11 1600]\<rparr>"
  by (simp add: run_any_def ex_steps_def ex_later_def ex_voted_store_val ex_store_def
      ex_vote_def ex_election_def ex_candidate_def Election_findById_def
      Candidate_findOne_def Vote_findOne_def Vote_save_def
      Candidate_findByIdAndUpdate_inc_def newVote_def)

theorem resubmission_already_voted_witness:
  "castVote None 1500 (ex_vote 7 10) ex_store =
     (ex_voted_store, Response 201 (VoteCast ''Ada'' ''Board'' 1500)) \<and>
   castVote None 1500 (ex_vote 7 10) (db (run \<lparr>db = ex_voted_store, tasks = []\<rparr> ex_later)) =
     (db (run \<lparr>db = ex_voted_store, tasks = []\<rparr> ex_later),
      Response 400 (Message ''You have already voted in this election'')) \<and>
   Election_findById (db (run_any \<lparr>db = ex_voted_store, tasks = []\<rparr> ex_steps)) 3 =
     Some (ex_election\<lparr>title := ''Council''\<rparr>) \<and>
   getElectionStatus (ex_election\<lparr>title := ''Council''\<rparr>) 1500 = Active \<and>
   castVote None 1500 (ex_vote 7 10) (db (run_any \<lparr>db = ex_voted_store, tasks = []\<rparr> ex_steps)) =
     (db (run_any \<lparr>db = ex_voted_store, tasks = []\<rparr> ex_steps),
      Response 400 (Message ''You have already voted in this election'')) \<and>
   vote_step False 1503 (ex_vote 7 11) ex_voted_store
       (AwaitSave 11 ex_election (ex_candidate 11 ''Bob'' 0) (newVote (ex_vote 7 11) 11 1501)) =
     (ex_voted_store, Finished (Response 400 (Message ''You have already voted in this election'')))"
proof -
  note a = ex_voted_store_cast
  have b: "votes_of ex_voted_store (voter (newVote (ex_vote 7 11) 11 1501))
     (v_election (newVote (ex_vote 7 11) 11 1501)) \<noteq> []"
    by (simp add: ex_voted_store_val votes_of_def newVote_def ex_vote_def)
  have e: "Election_findById (db (run_any \<lparr>db = ex_voted_store, tasks = []\<rparr> ex_steps))
      (electionId (ex_vote 7 10)) = Some (ex_election\<lparr>title := ''Council''\<rparr>)"
    and g: "getElectionStatus (ex_election\<lparr>title := ''Council''\<rparr>) 1500 = Active"
    and c: "candidateId (ex_vote 7 10) = Valid 10"
    and l: "list_ex (\<lambda>c. c_id c = 10 \<and> c_election c = electionId (ex_vote 7 10))
      (candidates (db (run_any \<lparr>db = ex_voted_store, tasks = []\<rparr> ex_steps)))"
    by (simp_all add: ex_steps_store Election_findById_def ex_election_def ex_vote_def
        ex_candidate_def getElectionStatus_def)
  from e have e': "Election_findById (db (run_any \<lparr>db = ex_voted_store, tasks = []\<rparr> ex_steps)) 3 =
     Some (ex_election\<lparr>title := ''Council''\<rparr>)"
    by (simp add: ex_vote_def)
  from resubmission_already_voted [OF a, of "[]" ex_later ex_steps
      "ex_election\<lparr>title := ''Council''\<rparr>" 10 ex_voted_store
      "newVote (ex_vote 7 11) 11 1501" 1503 "ex_vote 7 11" 11 ex_election
      "ex_candidate 11 ''Bob'' 0"] a b e g c l e'
  show ?thesis by simp
qed

text \<open>
  The specification's sentence fails when the administrator has disabled the election in
  between: the lifecycle check comes before the check for an existing vote, and the
  same request is then refused as not active.
\<close>

theorem resubmission_after_disabling:
  "castVote None 1500 (ex_vote 7 10) ex_store =
     (ex_voted_store, Response 201 (VoteCast ''Ada'' ''Board'' 1500)) \<and>
   updateElection ex_voted_store 3 ex_disable =
     (ex_disabled_store, Response 200 (ElectionDoc (ex_election\<lparr>isActive := False\<rparr>))) \<and>
   castVote None 1500 (ex_vote 7 10) ex_disabled_store =
     (ex_disabled_store, Response 400 (Message ''Election is not active''))"
proof -
  have "castVote None 1500 (ex_vote 7 10) ex_disabled_store =
     (ex_disabled_store, Response 400 (Message ''Election is not active''))"
    unfolding ex_disabled_store_eq
    by (simp add: castVote_def ex_vote_def Election_findById_def ex_election_def)
  moreover have "updateElection ex_voted_store 3 ex_disable =
     (ex_disabled_store, Response 200 (ElectionDoc (ex_election\<lparr>isActive := False\<rparr>)))"
    by (simp add: ex_disable_accepted ex_disabled_store_eq)
  ultimately show ?thesis using ex_voted_store_cast by simp
qed

section \<open>The counts of the results\<close>

lemma tally_append:
  "tally (st\<lparr>votes := votes st @ [v]\<rparr>) e c =
     tally st e c + (if v_election v = e \<and> v_candidate v = c then 1 else 0)"
  by (simp add: tally_def)








section \<open>The total of the results\<close>

text \<open>
  C8. In every store, the \<open>totalVotes\<close> of the results of an election is the number
  of Vote records of that election.
\<close>

theorem totalVotes_counts_votes:
  assumes "results_of (getResults srt st uid eid) = Some r"
  shows "totalVotes r = length (filter (\<lambda>v. v_election v = eid) (votes st))"
  using getResults_candidates(3) [OF assms]
  by (simp add: Vote_countDocuments_def)

theorem totalVotes_counts_votes_witness:
  "results_of (getResults stable_desc ex_tie_store 21 3) \<noteq> None \<and>
   map_option totalVotes (results_of (getResults stable_desc ex_tie_store 21 3)) = Some 7"
proof -
  obtain r where r: "results_of (getResults stable_desc ex_tie_store 21 3) = Some r"
    by (simp add: getResults_def results_of_def Election_findById_def ex_tie_store_def
        ex_election_def Let_def)
  from totalVotes_counts_votes [OF r] have "totalVotes r = 7"
    by (simp add: ex_tie_store_def ex_ballot_def)
  with r show ?thesis by simp
qed

section \<open>The winner\<close>

lemma winnerBanner_Some:
  "(winnerBanner (Some r) now = Some w) =
     (now > endDate (r_election r) \<and> totalVotes r > 0 \<and> r_candidates r \<noteq> [] \<and>
      w = hd (r_candidates r))"
  by (cases "r_candidates r") (auto simp: winnerBanner_def winner_def isElectionEnded_def)

lemma winnerBanner_first:
  "(winnerBanner (Some r) now = Some w) =
     (now > endDate (r_election r) \<and> totalVotes r > 0 \<and>
      (\<exists>rest. r_candidates r = w # rest))"
  by (cases "r_candidates r") (auto simp: winnerBanner_def winner_def isElectionEnded_def)

text \<open>
  C9, as the results page has it. The page names a winner exactly when the clock is
  past the end date of the election, at least one vote was counted and the election
  has a candidate; whether the election is enabled plays no part. The winner it names
  is the first candidate of the results, a candidate of the election whose
  \<open>voteCount\<close> no other candidate of the election exceeds. With no vote counted it
  names none.
\<close>

theorem winner_shown:
  assumes "sorts_by_voteCount_desc srt"
    and "results_of (getResults srt st uid eid) = Some r"
  shows "(winnerBanner (Some r) now \<noteq> None) =
           (now > endDate (r_election r) \<and> totalVotes r > 0 \<and> Candidate_find st eid \<noteq> []) \<and>
         (winnerBanner (Some r) now = Some w \<longrightarrow>
           (\<exists>rest. r_candidates r = w # rest) \<and>
           w \<in> set (Candidate_find st eid) \<and>
           (\<forall>c\<in>set (Candidate_find st eid). voteCount c \<le> voteCount w))"
proof
  let ?cs = "Candidate_find st eid"
  from assms(1) have perm: "mset (srt ?cs) = mset ?cs"
    and sorted: "sorted_wrt (\<lambda>a b. voteCount a \<ge> voteCount b) (srt ?cs)"
    by (simp_all add: sorts_by_voteCount_desc_def)
  from perm have set_eq: "set (srt ?cs) = set ?cs" by (rule mset_eq_setD)
  have rc: "r_candidates r = srt ?cs" by (rule getResults_candidates(1) [OF assms(2)])
  from set_eq have empty_iff: "(srt ?cs = []) = (?cs = [])"
    by (metis set_empty)
  show "(winnerBanner (Some r) now \<noteq> None) =
           (now > endDate (r_election r) \<and> totalVotes r > 0 \<and> ?cs \<noteq> [])"
    using empty_iff by (auto simp: winnerBanner_Some rc)
  show "winnerBanner (Some r) now = Some w \<longrightarrow>
           (\<exists>rest. r_candidates r = w # rest) \<and>
           w \<in> set ?cs \<and> (\<forall>c\<in>set ?cs. voteCount c \<le> voteCount w)"
  proof
    assume "winnerBanner (Some r) now = Some w"
    then obtain rest where split: "srt ?cs = w # rest"
      by (auto simp: winnerBanner_first rc)
    with sorted have "\<forall>c\<in>set rest. voteCount c \<le> voteCount w" by simp
    with split set_eq have "w \<in> set ?cs \<and> (\<forall>c\<in>set ?cs. voteCount c \<le> voteCount w)"
      by (metis list.set_intros(1) order_refl set_ConsD)
    with split rc show "(\<exists>rest. r_candidates r = w # rest) \<and>
           w \<in> set ?cs \<and> (\<forall>c\<in>set ?cs. voteCount c \<le> voteCount w)"
      by simp
  qed
qed

text \<open>
  The election of Scenario C with the results in the order 10, 11, 12: while it runs
  (instant 1500) the page names no winner; after its end (instant 2500) it names
  candidate 10, the first of the results, who holds 3 votes as candidate 11 does.
\<close>

theorem winner_shown_witness:
  "sorts_by_voteCount_desc stable_desc \<and>
   results_of (getResults stable_desc ex_tie_store 21 3) \<noteq> None \<and>
   map_option (\<lambda>r. map c_id (r_candidates r))
     (results_of (getResults stable_desc ex_tie_store 21 3)) = Some [10, 11, 12] \<and>
   winnerBanner (results_of (getResults stable_desc ex_tie_store 21 3)) 1500 = None \<and>
   winnerBanner (results_of (getResults stable_desc ex_tie_store 21 3)) 2500 =
     Some (ex_candidate 10 ''Ada'' 3) \<and>
   ex_candidate 10 ''Ada'' 3 \<in> set (Candidate_find ex_tie_store 3)"
proof -
  have r: "results_of (getResults stable_desc ex_tie_store 21 3) =
      Some \<lparr>r_election = ex_election,
            r_candidates = [ex_candidate 10 ''Ada'' 3, ex_candidate 11 ''Bob'' 3,
                            ex_candidate 12 ''Cy'' 1],
            totalVotes = 7, userVote = Some (10, ''Ada''), hasVoted = True\<rparr>"
    by (simp add: getResults_def results_of_def Election_findById_def ex_tie_store_def
        ex_election_def ex_candidate_def ex_ballot_def Candidate_find_def stable_desc_def
        Vote_countDocuments_def Vote_findOne_def populate_candidate_def
        Candidate_findById_def Let_def)
  have w: "winnerBanner (Some \<lparr>r_election = ex_election,
            r_candidates = [ex_candidate 10 ''Ada'' 3, ex_candidate 11 ''Bob'' 3,
                            ex_candidate 12 ''Cy'' 1],
            totalVotes = 7, userVote = Some (10, ''Ada''), hasVoted = True\<rparr>) 2500 =
       Some (ex_candidate 10 ''Ada'' 3)"
    by (simp add: winnerBanner_Some ex_election_def)
  from winner_shown [OF stable_desc_sorts r, of 1500 undefined, THEN conjunct1]
  have "winnerBanner (results_of (getResults stable_desc ex_tie_store 21 3)) 1500 = None"
    by (simp add: r ex_election_def)
  moreover from winner_shown [OF stable_desc_sorts r, of 2500 "ex_candidate 10 ''Ada'' 3",
      THEN conjunct2] w
  have "ex_candidate 10 ''Ada'' 3 \<in> set (Candidate_find ex_tie_store 3)"
    by simp
  ultimately show ?thesis using stable_desc_sorts r w by (simp add: ex_candidate_def)
qed

text \<open>
  The specification's sentence fails for an election the administrator has disabled: after
  its end date the page names a winner, while the classification of the election is
  Inactive, not Ended (Closed).
\<close>

theorem winner_of_disabled_election:
  "winnerBanner (results_of (getResults stable_desc ex_disabled_store 7 3)) 2500 =
     Some (ex_candidate 10 ''Ada'' 1) \<and>
   map_option (\<lambda>r. getElectionStatus (r_election r) 2500)
     (results_of (getResults stable_desc ex_disabled_store 7 3)) = Some Inactive"
  by (simp add: ex_disabled_store_eq getResults_def results_of_def Election_findById_def
      ex_election_def ex_candidate_def Candidate_find_def stable_desc_def
      Vote_countDocuments_def Vote_findOne_def populate_candidate_def Candidate_findById_def
      newVote_def ex_vote_def
      winnerBanner_def winner_def isElectionEnded_def getElectionStatus_def Let_def)

section \<open>Administration of what holds votes\<close>



text \<open>
  The other fields of an election that holds votes may still change: disabling the
  election that holds the vote of voter 7 is accepted.
\<close>

lemma disabling_with_votes_accepted:
  "Election_findById ex_voted_store 3 \<noteq> None \<and>
   (\<exists>v\<in>set (votes ex_voted_store). v_election v = 3) \<and>
   updateElection ex_voted_store 3 ex_disable =
     (ex_disabled_store, Response 200 (ElectionDoc (ex_election\<lparr>isActive := False\<rparr>))) \<and>
   ex_disabled_store \<noteq> ex_voted_store"
proof -
  have "ex_disabled_store \<noteq> ex_voted_store"
    by (simp add: ex_disabled_store_eq ex_voted_store_val ex_store_def ex_election_def)
  moreover have "updateElection ex_voted_store 3 ex_disable =
     (ex_disabled_store, Response 200 (ElectionDoc (ex_election\<lparr>isActive := False\<rparr>)))"
    by (simp add: ex_disable_accepted ex_disabled_store_eq)
  moreover have "Election_findById ex_voted_store 3 \<noteq> None"
    and "\<exists>v\<in>set (votes ex_voted_store). v_election v = 3"
    by (simp_all add: ex_voted_store_val ex_store_def ex_election_def
        Election_findById_def newVote_def ex_vote_def)
  ultimately show ?thesis by simp
qed

end
